theory Spec2Isabelle
  imports Main "HOL-Library.Sublist"
begin

section \<open>Chord transposition (src/index.ts)\<close>

text \<open>
  The module transposes chord symbols by a number of semitones. JavaScript strings are
  modelled as \<^typ>\<open>string\<close> (lists of characters), the \<open>number\<close> arguments that the
  specification restricts to integers as \<^typ>\<open>int\<close>, and every \<open>throw\<close> as the left
  summand of a result type. The integers are unbounded: intervals too large to be exact as
  a double are outside the model. The two \<open>console.log\<close> calls that the module runs
  when it is loaded print \<open>transposeChords('C G Am F', 7)\<close> and are not modelled.
\<close>

subsection \<open>Errors\<close>

text \<open>
  The source throws plain \<open>Error\<close> objects that differ in their message only:
  \<open>Note <note> not found in chromatic scale.\<close> in \<open>getNoteIndex\<close> (the specification's
  \<open>UnknownNoteError\<close>) and \<open>Invalid chord format: <chord>\<close> in \<open>transposeChord\<close>
  (the specification's \<open>InvalidChordFormatError\<close>). Each constructor carries the text
  interpolated into the message. \<open>TypeError\<close> is what the runtime throws when a method is
  called on \<open>undefined\<close>, which is what reading an array outside its bounds yields.
\<close>

datatype error =
    UnknownNoteError string
  | InvalidChordFormatError string
  | TypeError

subsection \<open>The chromatic table\<close>

text \<open>
  Modelled from the spec: the table \<open>chromaticScale\<close> is imported from
  \<open>./objects/chromaticScale\<close>, a file that is not among the sources. The specification
  describes it as an ordered sequence of exactly twelve entries, index 0 being C and each
  index one semitone above the previous one; an entry is a single letter name for a pitch
  class without accidental form, or a sharp spelling and a flat spelling joined by the
  separator, sharp first (its example is \<open>C#/Db\<close>). The code splits on \<open>/\<close> and looks
  for \<open>#\<close> and \<open>b\<close>, which fixes the separator and the accidental markers.
\<close>

definition chromaticScale :: "string list" where
  "chromaticScale =
     [''C'', ''C#/Db'', ''D'', ''D#/Eb'', ''E'', ''F'',
      ''F#/Gb'', ''G'', ''G#/Ab'', ''A'', ''A#/Bb'', ''B'']"

subsection \<open>String primitives of the runtime\<close>

text \<open>
  \<open>String.prototype.includes\<close>: does \<open>needle\<close> occur in \<open>hay\<close> as a contiguous
  substring, at any position. (Every table entry is a string, since the code calls
  \<open>split\<close> on it, so this is the method that \<open>chromaticScale[i].includes(note)\<close> runs.)
\<close>

fun includes_str :: "string \<Rightarrow> string \<Rightarrow> bool" where
  "includes_str [] needle = (needle = [])"
| "includes_str (c # cs) needle = (prefix needle (c # cs) \<or> includes_str cs needle)"

text \<open>\<open>String.prototype.split\<close> with a separator of one character.\<close>

fun split_str :: "char \<Rightarrow> string \<Rightarrow> string list" where
  "split_str sep [] = [[]]"
| "split_str sep (c # cs) =
     (if c = sep then [] # split_str sep cs
      else (case split_str sep cs of
              [] \<Rightarrow> [[c]]
            | w # ws \<Rightarrow> (c # w) # ws))"

text \<open>\<open>Array.prototype.join\<close> on an array of strings.\<close>

fun join_str :: "string \<Rightarrow> string list \<Rightarrow> string" where
  "join_str sep [] = []"
| "join_str sep [x] = x"
| "join_str sep (x # y # ys) = x @ sep @ join_str sep (y # ys)"

text \<open>
  The remainder operator \<open>%\<close> on integers: the result takes the sign of the dividend
  (the quotient is truncated towards zero). The divisor is positive wherever the module
  uses it. A result of \<open>-0\<close> indexes an array like \<open>0\<close>.
\<close>

definition js_rem :: "int \<Rightarrow> int \<Rightarrow> int" where
  "js_rem a b = (if a < 0 then - ((- a) mod b) else a mod b)"

subsection \<open>getNoteIndex\<close>

text \<open>
  The \<open>for\<close> loop of \<open>getNoteIndex\<close>, entered with the counter at \<open>i\<close>: it returns the
  first index from \<open>i\<close> on whose entry includes the note, and throws when the counter
  reaches the length of the table.
\<close>

function getNoteIndex_loop :: "nat \<Rightarrow> string \<Rightarrow> error + nat" where
  "getNoteIndex_loop i note =
     (if i < length chromaticScale then
        (if includes_str (chromaticScale ! i) note then Inr i
         else getNoteIndex_loop (i + 1) note)
      else Inl (UnknownNoteError note))"
  by pat_completeness auto
termination
  by (relation "measure (\<lambda>(i, note). length chromaticScale - i)") auto

declare getNoteIndex_loop.simps [simp del]

definition getNoteIndex :: "string \<Rightarrow> error + nat" where
  "getNoteIndex note = getNoteIndex_loop 0 note"

subsection \<open>chooseEnharmonic\<close>

text \<open>
  \<open>enharmonics[0]\<close> always exists, since \<open>split\<close> returns at least one piece.
  \<open>enharmonics[1]\<close> is \<open>undefined\<close> when the note has no separator, and is only read
  when \<open>direction < 0\<close> (the \<open>&&\<close> is short-circuit); calling \<open>includes\<close> on it throws.
\<close>

definition chooseEnharmonic :: "string \<Rightarrow> int \<Rightarrow> error + string" where
  "chooseEnharmonic note direction =
     (case split_str CHR ''/'' note of
        [] \<Rightarrow> Inl TypeError
      | e0 # rest \<Rightarrow>
          if direction > 0 \<and> includes_str e0 ''#'' then Inr e0
          else if direction < 0 then
            (case rest of
               [] \<Rightarrow> Inl TypeError
             | e1 # _ \<Rightarrow> if includes_str e1 ''b'' then Inr e1 else Inr e0)
          else Inr e0)"

subsection \<open>transposeChord\<close>

definition isNoteLetter :: "char \<Rightarrow> bool" where
  "isNoteLetter c = (c \<in> set ''ABCDEFG'')"

text \<open>
  \<open>chord.match(/[A-G](#|b)?/)\<close>, component 0 of the result: the pattern carries no
  \<open>^\<close>, so the search starts at every position in turn and the leftmost match wins;
  the optional group is greedy. \<open>None\<close> is the \<open>null\<close> of a failed search.
\<close>

fun rootMatch :: "string \<Rightarrow> string option" where
  "rootMatch [] = None"
| "rootMatch (c # cs) =
     (if isNoteLetter c then
        (case cs of
           [] \<Rightarrow> Some [c]
         | a # _ \<Rightarrow> if a = CHR ''#'' \<or> a = CHR ''b'' then Some [c, a] else Some [c])
      else rootMatch cs)"

text \<open>
  The re-spelling step inside \<open>transposeChord\<close> (\<open>let newRoot = chromaticScale[newIndex];
  if (newRoot.includes('/')) newRoot = chooseEnharmonic(newRoot, interval)\<close>), applied to
  the entry that was read from the table.
\<close>

definition respell :: "string \<Rightarrow> int \<Rightarrow> error + string" where
  "respell entry interval =
     (if includes_str entry ''/'' then chooseEnharmonic entry interval else Inr entry)"

text \<open>
  \<open>chord.slice(root.length)\<close> drops as many characters from the front of the chord as
  the root is long, wherever the root was found. An index outside the table reads
  \<open>undefined\<close>, and \<open>newRoot.includes\<close> then throws.
\<close>

definition quality_of :: "string \<Rightarrow> string \<Rightarrow> string" where
  "quality_of chord root = drop (length root) chord"

definition transposeChord :: "string \<Rightarrow> int \<Rightarrow> error + string" where
  "transposeChord chord interval =
     (case rootMatch chord of
        None \<Rightarrow> Inl (InvalidChordFormatError chord)
      | Some root \<Rightarrow>
          (let quality = quality_of chord root in
           case getNoteIndex root of
             Inl e \<Rightarrow> Inl e
           | Inr rootIndex \<Rightarrow>
               (let newIndex = js_rem (int rootIndex + interval + int (length chromaticScale))
                                      (int (length chromaticScale))
                in if 0 \<le> newIndex \<and> newIndex < int (length chromaticScale) then
                     (case respell (chromaticScale ! nat newIndex) interval of
                        Inl e \<Rightarrow> Inl e
                      | Inr newRoot \<Rightarrow> Inr (newRoot @ quality))
                   else Inl TypeError)))"

subsection \<open>transposeChords\<close>

text \<open>
  \<open>Array.prototype.map\<close> with a callback that may throw: the elements are visited from
  the left, and the first exception leaves \<open>map\<close> without a result.
\<close>

fun map_throwing :: "('a \<Rightarrow> error + 'b) \<Rightarrow> 'a list \<Rightarrow> error + 'b list" where
  "map_throwing f [] = Inr []"
| "map_throwing f (x # xs) =
     (case f x of
        Inl e \<Rightarrow> Inl e
      | Inr y \<Rightarrow> (case map_throwing f xs of Inl e \<Rightarrow> Inl e | Inr ys \<Rightarrow> Inr (y # ys)))"

definition transposeChords :: "string \<Rightarrow> int \<Rightarrow> error + string" where
  "transposeChords chords interval =
     (case map_throwing (\<lambda>chord. transposeChord chord interval) (split_str CHR '' '' chords) of
        Inl e \<Rightarrow> Inl e
      | Inr rs \<Rightarrow> Inr (join_str '' '' rs))"

subsection \<open>The matching rule of the specification\<close>

text \<open>
  For comparison with \<open>includes_str\<close>, which is what \<open>getNoteIndex\<close> runs: the
  specification's rule for when a note spelling matches a table entry. The spelling equals
  the entry outright, or the entry is an enharmonic pair and the spelling equals one of
  the halves that splitting on the separator yields.
\<close>

definition spec_matches :: "string \<Rightarrow> string \<Rightarrow> bool" where
  "spec_matches spelling entry =
     (spelling = entry \<or>
      (includes_str entry ''/'' \<and> spelling \<in> set (split_str CHR ''/'' entry)))"


section \<open>Properties of the string primitives\<close>

lemma includes_str_sublist: "includes_str hay needle = sublist needle hay"
  by (induction hay) (auto simp: sublist_Cons_right)

lemma includes_str_single: "includes_str s [c] = (c \<in> set s)"
  by (induction s) auto

lemma split_str_nonempty: "split_str sep s \<noteq> []"
  by (induction s) (auto split: list.splits)

lemma split_str_no_sep: "sep \<notin> set s \<Longrightarrow> split_str sep s = [s]"
  by (induction s) auto

lemma split_str_append: "sep \<notin> set a \<Longrightarrow> split_str sep (a @ sep # b) = a # split_str sep b"
  by (induction a) auto

lemma split_str_pieces: "w \<in> set (split_str sep s) \<Longrightarrow> sep \<notin> set w"
  by (induction s arbitrary: w) (auto split: if_splits list.splits)

lemma length_split_str: "length (split_str sep s) = Suc (count_list s sep)"
  by (induction s) (auto split: list.splits simp: split_str_nonempty)

text \<open>Joining the pieces with the separator gives the string back.\<close>

lemma join_split_str: "join_str [sep] (split_str sep s) = s"
proof (induction s)
  case Nil
  show ?case by simp
next
  case (Cons c cs)
  obtain w ws where sp: "split_str sep cs = w # ws"
    using split_str_nonempty [of sep cs] by (cases "split_str sep cs") auto
  show ?case
  proof (cases "c = sep")
    case True
    with Cons sp show ?thesis by simp
  next
    case False
    with Cons sp show ?thesis by (cases ws) auto
  qed
qed

lemma split_str_pair:
  assumes "CHR ''/'' \<notin> set sharp" and "CHR ''/'' \<notin> set flat"
  shows "split_str CHR ''/'' (sharp @ ''/'' @ flat) = [sharp, flat]"
  using assms by (simp add: split_str_append split_str_no_sep)

lemma js_rem_nonneg: "0 < b \<Longrightarrow> 0 \<le> a \<Longrightarrow> 0 \<le> js_rem a b \<and> js_rem a b < b"
  by (simp add: js_rem_def)

lemma js_rem_neg:
  assumes "0 < b" and "a < 0" and "\<not> b dvd a"
  shows "js_rem a b < 0"
proof -
  from assms(3) have "\<not> b dvd - a" by simp
  then have "(- a) mod b \<noteq> 0" by (simp add: dvd_eq_mod_eq_0)
  moreover from assms(1) have "0 \<le> (- a) mod b" by simp
  ultimately have "0 < (- a) mod b" by linarith
  with assms(2) show ?thesis by (simp add: js_rem_def)
qed

lemma js_rem_add_period: "0 < b \<Longrightarrow> 0 \<le> a \<Longrightarrow> js_rem (a + b) b = js_rem a b"
  by (simp add: js_rem_def)

lemma js_rem_dvd: "b dvd a \<Longrightarrow> js_rem a b = 0"
  by (auto simp: js_rem_def)

text \<open>The first exception decides the outcome of \<open>map\<close>.\<close>

lemma map_throwing_find:
  "map_throwing f xs =
     (case find (\<lambda>x. isl (f x)) xs of
        Some x \<Rightarrow> Inl (projl (f x))
      | None \<Rightarrow> Inr (map (\<lambda>x. projr (f x)) xs))"
  by (induction xs) (auto split: sum.splits option.splits)

section \<open>Properties of the note resolver\<close>

text \<open>
  What the loop computes: the least index from the starting point whose entry contains the
  note as a substring, and the error when no entry does.
\<close>

lemma getNoteIndex_loop_Inr:
  "getNoteIndex_loop i nt = Inr k \<Longrightarrow>
     i \<le> k \<and> k < length chromaticScale \<and> includes_str (chromaticScale ! k) nt \<and>
     (\<forall>j. i \<le> j \<and> j < k \<longrightarrow> \<not> includes_str (chromaticScale ! j) nt)"
proof (induction i nt rule: getNoteIndex_loop.induct)
  case (1 i nt)
  show ?case
  proof (cases "i < length chromaticScale \<and> \<not> includes_str (chromaticScale ! i) nt")
    case True
    with "1.prems" have "getNoteIndex_loop (i + 1) nt = Inr k"
      by (simp add: getNoteIndex_loop.simps [of i])
    with "1.IH" True
    have ih: "i + 1 \<le> k \<and> k < length chromaticScale \<and> includes_str (chromaticScale ! k) nt \<and>
              (\<forall>j. i + 1 \<le> j \<and> j < k \<longrightarrow> \<not> includes_str (chromaticScale ! j) nt)"
      by simp
    have "\<forall>j. i \<le> j \<and> j < k \<longrightarrow> \<not> includes_str (chromaticScale ! j) nt"
    proof (intro allI impI)
      fix j assume "i \<le> j \<and> j < k"
      then consider "j = i" | "i + 1 \<le> j \<and> j < k" by linarith
      then show "\<not> includes_str (chromaticScale ! j) nt"
        using True ih by cases auto
    qed
    with ih show ?thesis by simp
  next
    case False
    with "1.prems" show ?thesis
      by (auto simp: getNoteIndex_loop.simps [of i] split: if_splits)
  qed
qed

lemma getNoteIndex_loop_Inl:
  "getNoteIndex_loop i nt = Inl e \<Longrightarrow>
     e = UnknownNoteError nt \<and>
     (\<forall>j. i \<le> j \<and> j < length chromaticScale \<longrightarrow> \<not> includes_str (chromaticScale ! j) nt)"
proof (induction i nt rule: getNoteIndex_loop.induct)
  case (1 i nt)
  show ?case
  proof (cases "i < length chromaticScale")
    case True
    with "1.prems" have ni: "\<not> includes_str (chromaticScale ! i) nt"
      and rec: "getNoteIndex_loop (i + 1) nt = Inl e"
      by (auto simp: getNoteIndex_loop.simps [of i] split: if_splits)
    with "1.IH" True
    have ih: "e = UnknownNoteError nt \<and>
              (\<forall>j. i + 1 \<le> j \<and> j < length chromaticScale \<longrightarrow>
                   \<not> includes_str (chromaticScale ! j) nt)"
      by simp
    have "\<forall>j. i \<le> j \<and> j < length chromaticScale \<longrightarrow> \<not> includes_str (chromaticScale ! j) nt"
    proof (intro allI impI)
      fix j assume "i \<le> j \<and> j < length chromaticScale"
      then consider "j = i" | "i + 1 \<le> j \<and> j < length chromaticScale" by linarith
      then show "\<not> includes_str (chromaticScale ! j) nt"
        using ni ih by cases auto
    qed
    with ih show ?thesis by simp
  next
    case False
    with "1.prems" show ?thesis
      by (auto simp: getNoteIndex_loop.simps [of i])
  qed
qed

lemma getNoteIndex_Inr:
  "getNoteIndex nt = Inr k \<Longrightarrow>
     k < length chromaticScale \<and> includes_str (chromaticScale ! k) nt \<and>
     (\<forall>j<k. \<not> includes_str (chromaticScale ! j) nt)"
  using getNoteIndex_loop_Inr [of 0 nt k] by (simp add: getNoteIndex_def)

lemma getNoteIndex_Inl:
  "getNoteIndex nt = Inl e \<Longrightarrow>
     e = UnknownNoteError nt \<and>
     (\<forall>j<length chromaticScale. \<not> includes_str (chromaticScale ! j) nt)"
  using getNoteIndex_loop_Inl [of 0 nt e] by (simp add: getNoteIndex_def)

text \<open>What the resolver returns for the seven letters and for the empty spelling.\<close>

lemma getNoteIndex_letters:
  "map getNoteIndex [''C'', ''D'', ''E'', ''F'', ''G'', ''A'', ''B'', ''''] =
     [Inr 0, Inr 1, Inr 3, Inr 5, Inr 6, Inr 8, Inr 10, Inr 0]"
  by code_simp

text \<open>
  The shape of the table: every entry is a single name or a pair whose first half carries
  a sharp and whose second half carries a flat; every name and every half is found by the
  resolver.
\<close>

lemma table_entries:
  "list_all (\<lambda>entry. case split_str CHR ''/'' entry of
                        [e] \<Rightarrow> e = entry
                      | [s, f] \<Rightarrow> entry = s @ ''/'' @ f \<and> includes_str s ''#'' \<and>
                                  includes_str f ''b''
                      | _ \<Rightarrow> False) chromaticScale"
  by code_simp

lemma table_spellings_resolvable:
  "list_all (\<lambda>entry. list_all (\<lambda>r. case getNoteIndex r of
                                        Inl e \<Rightarrow> False
                                      | Inr i \<Rightarrow> i < length chromaticScale)
                                (split_str CHR ''/'' entry)) chromaticScale"
  by code_simp

lemma split_piece_resolvable:
  assumes "entry \<in> set chromaticScale" and "r \<in> set (split_str CHR ''/'' entry)"
  shows "\<exists>i. getNoteIndex r = Inr i \<and> i < length chromaticScale"
proof -
  from assms table_spellings_resolvable
  have "case getNoteIndex r of Inl e \<Rightarrow> False | Inr i \<Rightarrow> i < length chromaticScale"
    by (simp add: list_all_iff)
  then show ?thesis by (cases "getNoteIndex r") auto
qed

section \<open>Properties of the re-spelling\<close>

lemma chooseEnharmonic_pair:
  assumes "CHR ''/'' \<notin> set sharp" and "CHR ''/'' \<notin> set flat"
  shows "chooseEnharmonic (sharp @ ''/'' @ flat) direction =
           Inr (if direction < 0 \<and> CHR ''b'' \<in> set flat then flat else sharp)"
  using split_str_pair [OF assms]
  by (simp add: chooseEnharmonic_def includes_str_single del: includes_str.simps)

lemma respell_pair:
  "respell (sharp @ CHR ''/'' # flat) direction =
     chooseEnharmonic (sharp @ CHR ''/'' # flat) direction"
  by (simp add: respell_def includes_str_single del: includes_str.simps)

lemma respell_natural: "CHR ''/'' \<notin> set entry \<Longrightarrow> respell entry direction = Inr entry"
  by (simp add: respell_def includes_str_single del: includes_str.simps)

lemma respell_in_split:
  "respell entry n = Inr r \<Longrightarrow> r \<in> set (split_str CHR ''/'' entry)"
proof (cases "CHR ''/'' \<in> set entry")
  case True
  assume "respell entry n = Inr r"
  with True show ?thesis
    by (auto simp: respell_def chooseEnharmonic_def includes_str_single
             simp del: includes_str.simps split: if_splits list.splits)
next
  case False
  assume "respell entry n = Inr r"
  with False show ?thesis
    by (simp add: respell_natural split_str_no_sep)
qed

text \<open>On an entry of the table the re-spelling never throws.\<close>

lemma respell_table_total:
  assumes "entry \<in> set chromaticScale"
  shows "\<exists>r. respell entry n = Inr r"
proof -
  from assms table_entries
  have sh: "case split_str CHR ''/'' entry of
              [e] \<Rightarrow> e = entry
            | [s, f] \<Rightarrow> entry = s @ ''/'' @ f \<and> includes_str s ''#'' \<and> includes_str f ''b''
            | _ \<Rightarrow> False"
    by (simp add: list_all_iff)
  show ?thesis
  proof (cases "CHR ''/'' \<in> set entry")
    case False
    then show ?thesis by (simp add: respell_natural)
  next
    case True
    have "\<forall>w \<in> set (split_str CHR ''/'' entry). CHR ''/'' \<notin> set w"
      using split_str_pieces by blast
    with True sh show ?thesis
      by (auto simp: respell_def chooseEnharmonic_def includes_str_single
               simp del: includes_str.simps split: list.splits)
  qed
qed

section \<open>Properties of the root extraction\<close>

lemma rootMatch_None: "rootMatch chord = None \<longleftrightarrow> (\<forall>c \<in> set chord. \<not> isNoteLetter c)"
  by (induction chord) (auto split: list.splits)

lemma rootMatch_letter:
  assumes "isNoteLetter c"
  shows "\<exists>root quality. rootMatch (c # rest) = Some root \<and> c # rest = root @ quality \<and>
           rootMatch root = Some root"
proof (cases rest)
  case Nil
  with assms show ?thesis by simp
next
  case (Cons a as)
  show ?thesis
  proof (cases "a = CHR ''#'' \<or> a = CHR ''b''")
    case True
    with assms Cons have "rootMatch (c # rest) = Some [c, a]" "c # rest = [c, a] @ as"
      "rootMatch [c, a] = Some [c, a]" by auto
    then show ?thesis by blast
  next
    case False
    with assms Cons have "rootMatch (c # rest) = Some [c]" "c # rest = [c] @ rest"
      "rootMatch [c] = Some [c]" by auto
    then show ?thesis by blast
  qed
qed

text \<open>
  The chord-format error is raised exactly for the strings in which no letter from A to G
  occurs at any position.
\<close>

lemma transposeChord_InvalidChordFormat:
  "transposeChord chord n = Inl (InvalidChordFormatError s) \<longleftrightarrow>
     s = chord \<and> (\<forall>c \<in> set chord. \<not> isNoteLetter c)"
proof (cases "rootMatch chord")
  case None
  then show ?thesis using rootMatch_None [of chord] by (auto simp: transposeChord_def)
next
  case (Some root)
  then have "\<not> (\<forall>c \<in> set chord. \<not> isNoteLetter c)"
    using rootMatch_None [of chord] by auto
  moreover have "transposeChord chord n \<noteq> Inl (InvalidChordFormatError s)"
    using Some
    by (auto simp: transposeChord_def Let_def respell_def chooseEnharmonic_def
             dest: getNoteIndex_Inl split: sum.splits list.splits if_splits)
  ultimately show ?thesis by blast
qed

text \<open>
  The \<open>TypeError\<close> is raised exactly when the root resolves and the sum of its index,
  the interval and twelve is negative and not a multiple of twelve.
\<close>

lemma transposeChord_TypeError:
  "transposeChord chord n = Inl TypeError \<longleftrightarrow>
     (\<exists>root i. rootMatch chord = Some root \<and> getNoteIndex root = Inr i \<and>
        int i + n + 12 < 0 \<and> \<not> 12 dvd (int i + n))"
proof (cases "rootMatch chord")
  case None
  then show ?thesis by (simp add: transposeChord_def)
next
  case (Some root)
  show ?thesis
  proof (cases "getNoteIndex root")
    case (Inl e)
    with getNoteIndex_Inl [OF Inl] Some show ?thesis by (simp add: transposeChord_def Let_def)
  next
    case (Inr i)
    have len: "int (length chromaticScale) = 12" by (simp add: chromaticScale_def)
    let ?a = "int i + n + 12"
    show ?thesis
    proof (cases "0 \<le> js_rem ?a 12 \<and> js_rem ?a 12 < 12")
      case True
      then have "chromaticScale ! nat (js_rem ?a 12) \<in> set chromaticScale"
        using len by (intro nth_mem) linarith
      from respell_table_total [OF this, of n] obtain r where
        "respell (chromaticScale ! nat (js_rem ?a 12)) n = Inr r" by blast
      with Some Inr True len have "transposeChord chord n \<noteq> Inl TypeError"
        by (simp add: transposeChord_def Let_def)
      moreover have "\<not> (?a < 0 \<and> \<not> 12 dvd (int i + n))"
      proof
        assume "?a < 0 \<and> \<not> 12 dvd (int i + n)"
        then have "?a < 0" "\<not> 12 dvd ?a" by (simp_all add: dvd_add_left_iff)
        with js_rem_neg [of 12 ?a] have "js_rem ?a 12 < 0" by simp
        with True show False by simp
      qed
      ultimately show ?thesis using Some Inr by simp
    next
      case False
      with Some Inr len have t: "transposeChord chord n = Inl TypeError"
        by (auto simp: transposeChord_def Let_def)
      have "?a < 0"
      proof (rule ccontr)
        assume "\<not> ?a < 0"
        with js_rem_nonneg [of 12 ?a] False show False by simp
      qed
      moreover have "\<not> 12 dvd (int i + n)"
      proof
        assume "12 dvd (int i + n)"
        then have "12 dvd ?a" by (simp add: dvd_add_left_iff)
        from js_rem_dvd [OF this] False show False by simp
      qed
      ultimately show ?thesis using t Some Inr by simp
    qed
  qed
qed

lemma transposeChord_append:
  assumes m: "rootMatch (root @ quality) = Some root" and r: "rootMatch root = Some root"
  shows "transposeChord (root @ quality) n =
           (case transposeChord root n of
              Inl e \<Rightarrow> Inl e
            | Inr newRoot \<Rightarrow> Inr (newRoot @ quality))"
  using m r
  by (simp add: transposeChord_def quality_of_def Let_def split: sum.splits)

section \<open>The claims\<close>

subsection \<open>Note resolution\<close>

text \<open>
  C1: the resolver is to scan the twelve entries in index order and return the index of the
  first entry that the spelling matches, a match being equality with the entry or with one
  half of an enharmonic pair, and is to fail with \<open>UnknownNoteError\<close> when no entry
  matches. The scan is in index order and returns the first hit (\<open>getNoteIndex_Inr\<close>,
  \<open>getNoteIndex_Inl\<close>), but the test it applies is substring containment. For the
  spelling \<open>D\<close> it stops at index 1, whose entry \<open>C#/Db\<close> contains the letter without
  matching it in the stated sense, and never reaches the entry \<open>D\<close> at index 2.
\<close>

theorem getNoteIndex_substring_match:
  "getNoteIndex ''D'' = Inr 1 \<and>
   chromaticScale ! 1 = ''C#/Db'' \<and> \<not> spec_matches ''D'' (chromaticScale ! 1) \<and>
   chromaticScale ! 2 = ''D'' \<and> spec_matches ''D'' (chromaticScale ! 2)"
  by code_simp

subsection \<open>The worked example\<close>

text \<open>
  C2: \<open>transposeChords("C G Am F", 7)\<close> is to return \<open>G D Em C\<close> and
  \<open>transposeChord("Am", 7)\<close> is to return \<open>Em\<close>. The roots \<open>G\<close> and \<open>A\<close> are resolved
  to the indices 6 and 8 of the pairs \<open>F#/Gb\<close> and \<open>G#/Ab\<close>, one semitone too low, so
  the code returns \<open>G C# D#m C\<close> and \<open>D#m\<close>.
\<close>

theorem transposeChords_example:
  "transposeChords ''C G Am F'' 7 = Inr ''G C# D#m C'' \<and>
   getNoteIndex ''G'' = Inr 6 \<and> getNoteIndex ''A'' = Inr 8 \<and>
   transposeChord ''Am'' 7 = Inr ''D#m''"
  by code_simp

subsection \<open>Index normalisation\<close>

text \<open>
  C3: for every resolved root index and every integer interval the new index is to be
  normalised into the range of the table by a remainder that is never negative. The code
  adds the length of the table once before taking the remainder, and the remainder keeps
  the sign of its dividend: the index is in range when the sum is not negative
  (\<open>js_rem_nonneg\<close>) and negative when the sum is negative and not a multiple of twelve
  (\<open>js_rem_neg\<close>, \<open>transposeChord_TypeError\<close>). For the chord \<open>C\<close> and the interval
  \<open>-13\<close> the index is \<open>-1\<close>, the table yields \<open>undefined\<close> and the call ends in a
  \<open>TypeError\<close>.
\<close>

theorem transposeChord_negative_index:
  "getNoteIndex ''C'' = Inr 0 \<and>
   js_rem (int 0 + (- 13) + int (length chromaticScale)) (int (length chromaticScale)) = - 1 \<and>
   transposeChord ''C'' (- 13) = Inl TypeError"
  by code_simp

subsection \<open>Root extraction\<close>

text \<open>
  C4: the root pattern is to be anchored at the start of the string, and the call is to fail
  with \<open>InvalidChordFormatError\<close> exactly when the string has no such prefix, also when a
  note letter occurs later in the string. The pattern is searched for at every position
  (\<open>transposeChord_InvalidChordFormat\<close>: the error is raised only when no letter from A to
  G occurs anywhere), while the quality is cut off at the front of the string. For \<open>xAm\<close>
  the root found is \<open>A\<close>, the quality is \<open>Am\<close>, and the call returns \<open>G#Am\<close>.
\<close>

theorem transposeChord_unanchored:
  "rootMatch ''xAm'' = Some ''A'' \<and> quality_of ''xAm'' ''A'' = ''Am'' \<and>
   transposeChord ''xAm'' 0 = Inr ''G#Am''"
  by code_simp

subsection \<open>Round trip\<close>

text \<open>
  C5: transposing a valid chord by \<open>n\<close> and the result by \<open>-n\<close> is to give a chord whose
  root resolves to the same index as the root of the original. The chord \<open>C\<close> (index 0)
  goes up two semitones to \<open>D\<close>; on the way back \<open>D\<close> is resolved to index 1 and the
  result is \<open>B\<close>, which resolves to index 10.
\<close>

theorem round_trip_C_2:
  "transposeChord ''C'' 2 = Inr ''D'' \<and> transposeChord ''D'' (- 2) = Inr ''B'' \<and>
   getNoteIndex ''C'' = Inr 0 \<and> getNoteIndex ''D'' = Inr 1 \<and> getNoteIndex ''B'' = Inr 10"
  by code_simp

subsection \<open>Intervals twelve apart\<close>

text \<open>
  C6: transposing a valid chord by \<open>n\<close> and by \<open>n + 12\<close> is to give roots of the same
  pitch class. For the chord \<open>C\<close> the interval \<open>-1\<close> gives \<open>B\<close>, and the interval
  \<open>-13\<close> gives no chord at all: the index is negative and the call ends in a
  \<open>TypeError\<close>.
\<close>

theorem modulo_closure_C_minus_13:
  "transposeChord ''C'' (- 13) = Inl TypeError \<and> transposeChord ''C'' (- 13 + 12) = Inr ''B''"
  by code_simp

subsection \<open>Quality preservation\<close>

text \<open>
  C7: for every chord string that begins with a valid root and every interval, the quality
  suffix is not inspected and is carried into the output unchanged. A string that begins
  with a letter from A to G splits into the root that the pattern matches and the quality
  that \<open>slice\<close> leaves; the outcome for the whole string is the outcome for the bare root,
  the error unchanged or the new root with that quality appended. (The quality of the
  output is the text after the new root as the code spells it: after \<open>D\<close> a quality that
  starts with \<open>b\<close> or \<open>#\<close> would be read as an accidental by a second parse, see
  \<open>quality_second_parse\<close>.)
\<close>

theorem quality_preservation:
  assumes "isNoteLetter c"
  shows "\<exists>root quality.
           rootMatch (c # rest) = Some root \<and> c # rest = root @ quality \<and>
           quality_of (c # rest) root = quality \<and>
           transposeChord (c # rest) n =
             (case transposeChord root n of
                Inl e \<Rightarrow> Inl e
              | Inr newRoot \<Rightarrow> Inr (newRoot @ quality))"
proof -
  from rootMatch_letter [OF assms, of rest] obtain root quality where
    m: "rootMatch (c # rest) = Some root" and s: "c # rest = root @ quality"
    and r: "rootMatch root = Some root" by blast
  from s have q: "quality_of (c # rest) root = quality" by (simp add: quality_of_def)
  from m s have "rootMatch (root @ quality) = Some root" by simp
  from transposeChord_append [OF this r, of n] s
  have "transposeChord (c # rest) n =
          (case transposeChord root n of
             Inl e \<Rightarrow> Inl e
           | Inr newRoot \<Rightarrow> Inr (newRoot @ quality))"
    by simp
  with m s q show ?thesis by blast
qed

theorem quality_preservation_witness:
  "isNoteLetter CHR ''A'' \<and>
   (\<exists>root quality.
      rootMatch ''Am7'' = Some root \<and> ''Am7'' = root @ quality \<and>
      quality_of ''Am7'' root = quality \<and>
      transposeChord ''Am7'' (- 2) =
        (case transposeChord root (- 2) of
           Inl e \<Rightarrow> Inl e
         | Inr newRoot \<Rightarrow> Inr (newRoot @ quality)))"
proof -
  have h: "isNoteLetter CHR ''A''" by (simp add: isNoteLetter_def)
  from quality_preservation [OF h, of "''m7''" "- 2"] h show ?thesis by simp
qed

lemma quality_second_parse:
  "quality_of ''C#b5'' ''C#'' = ''b5'' \<and> transposeChord ''C#b5'' 1 = Inr ''Db5'' \<and>
   rootMatch ''Db5'' = Some ''Db''"
  by code_simp

subsection \<open>Enharmonic disambiguation\<close>

text \<open>
  C8: for an enharmonic pair, sharp form first and flat form second, the spelling selection
  returns the sharp form when the direction is positive, the flat form when the direction
  is negative and the flat half contains a flat marker, and the sharp form in every other
  case; an entry without separator is returned unchanged. The pair is any two spellings
  free of the separator, joined by it.
\<close>

theorem enharmonic_disambiguation:
  assumes "CHR ''/'' \<notin> set sharp" and "CHR ''/'' \<notin> set flat"
    and "CHR ''/'' \<notin> set natural"
  shows "respell (sharp @ ''/'' @ flat) direction =
           Inr (if direction > 0 then sharp
                else if direction < 0 \<and> CHR ''b'' \<in> set flat then flat
                else sharp) \<and>
         respell natural direction = Inr natural"
  using chooseEnharmonic_pair [OF assms(1,2), of direction]
    respell_natural [OF assms(3), of direction]
  by (simp add: respell_pair)

theorem enharmonic_disambiguation_witness:
  "CHR ''/'' \<notin> set ''C#'' \<and> CHR ''/'' \<notin> set ''Db'' \<and> CHR ''/'' \<notin> set ''E'' \<and>
   respell ''C#/Db'' (- 1) = Inr ''Db'' \<and> respell ''E'' (- 1) = Inr ''E''"
proof -
  have h: "CHR ''/'' \<notin> set ''C#''" "CHR ''/'' \<notin> set ''Db''" "CHR ''/'' \<notin> set ''E''"
    by simp_all
  from enharmonic_disambiguation [OF h, of "- 1"] h show ?thesis by simp
qed

subsection \<open>Sequences\<close>

text \<open>
  C9: \<open>transposeChords\<close> splits its input on single spaces, transposes the pieces in
  order and joins the results with single spaces; when a piece fails, the call fails
  with the error of the first failing piece and gives no output. (\<open>find\<close> returns the
  first element of a list that satisfies a predicate; \<open>join_split_str\<close> and
  \<open>length_split_str\<close> say what splitting is.)
\<close>

theorem sequence_atomicity:
  "transposeChords chords interval =
     (case find (\<lambda>chord. isl (transposeChord chord interval)) (split_str CHR '' '' chords) of
        Some chord \<Rightarrow> Inl (projl (transposeChord chord interval))
      | None \<Rightarrow>
          Inr (join_str '' '' (map (\<lambda>chord. projr (transposeChord chord interval))
                                   (split_str CHR '' '' chords))))"
  by (simp add: transposeChords_def map_throwing_find split: option.splits)

subsection \<open>The spelling of a returned root\<close>

text \<open>
  C10: whenever \<open>transposeChord\<close> returns a string, the string is a new root followed by
  the quality, where the new root is a natural entry of the table or one half of one of
  its pairs, and the resolver finds an index for the new root.
\<close>

theorem output_invariant:
  assumes "transposeChord chord interval = Inr out"
  shows "\<exists>root newRoot entry i.
           rootMatch chord = Some root \<and> out = newRoot @ quality_of chord root \<and>
           entry \<in> set chromaticScale \<and> newRoot \<in> set (split_str CHR ''/'' entry) \<and>
           getNoteIndex newRoot = Inr i \<and> i < length chromaticScale"
proof -
  from assms obtain root where m: "rootMatch chord = Some root"
    by (cases "rootMatch chord") (auto simp: transposeChord_def)
  from assms m obtain rootIndex where g: "getNoteIndex root = Inr rootIndex"
    by (cases "getNoteIndex root") (auto simp: transposeChord_def Let_def)
  define newIndex where
    "newIndex = js_rem (int rootIndex + interval + int (length chromaticScale))
                       (int (length chromaticScale))"
  from assms m g have rng: "0 \<le> newIndex \<and> newIndex < int (length chromaticScale)"
    by (auto simp: transposeChord_def Let_def newIndex_def split: if_splits)
  with assms m g obtain newRoot where
    rs: "respell (chromaticScale ! nat newIndex) interval = Inr newRoot"
    and out: "out = newRoot @ quality_of chord root"
    by (cases "respell (chromaticScale ! nat newIndex) interval")
       (auto simp: transposeChord_def Let_def newIndex_def)
  from rng have mem: "chromaticScale ! nat newIndex \<in> set chromaticScale"
    by (intro nth_mem) linarith
  from respell_in_split [OF rs]
  have half: "newRoot \<in> set (split_str CHR ''/'' (chromaticScale ! nat newIndex))" .
  from split_piece_resolvable [OF mem half] obtain i where
    "getNoteIndex newRoot = Inr i \<and> i < length chromaticScale" by blast
  with m out mem half show ?thesis by blast
qed

theorem output_invariant_witness:
  "transposeChord ''Am7'' (- 2) = Inr ''Gbm7'' \<and>
   (\<exists>root newRoot entry i.
      rootMatch ''Am7'' = Some root \<and> ''Gbm7'' = newRoot @ quality_of ''Am7'' root \<and>
      entry \<in> set chromaticScale \<and> newRoot \<in> set (split_str CHR ''/'' entry) \<and>
      getNoteIndex newRoot = Inr i \<and> i < length chromaticScale)"
proof -
  have h: "transposeChord ''Am7'' (- 2) = Inr ''Gbm7''" by code_simp
  from output_invariant [OF h] h show ?thesis by simp
qed

end
